theory Spec2Isabelle
  imports Main "HOL-Library.Sublist"
begin

section \<open>Rule L027: references must be qualified when a select has several sources\<close>

subsection \<open>Data model\<close>

text \<open>
  Text is a string of the language: a list of Unicode code points. A literal of the
  source is written \<open>lit ''...''\<close>, the code points of its characters.
\<close>

type_synonym str = "nat list"

abbreviation lit :: "string \<Rightarrow> str" where
  "lit s \<equiv> map of_char s"

text \<open>
  Modelled from the spec: the reference segment class is not part of the rule's file; the
  rule reads a reference's raw text, asks for its qualification status (the rule compares
  the status with the text \<open>unqualified\<close>; the data model gives the status two values),
  and tests membership of a reference in an alias's list of references. Two references
  with the same raw text at different places of the source text are different values:
  the position marker is the identity of the reference.
\<close>

datatype qualification_status = Qualified | Unqualified

record segment =
  raw :: str
  qualification :: qualification_status
  pos_marker :: nat

text \<open>
  Modelled from the spec: the table alias record is declared outside the rule's file; the
  rule reads only its reference string.
\<close>

record alias_info =
  ref_str :: str

text \<open>
  Modelled from the spec: the column alias record is declared outside the rule's file; the
  rule reads the alias identifier and the references of the alias's defining expression.
\<close>

record column_alias_info =
  alias_identifier_name :: str
  column_reference_segments :: "segment list"

text \<open>
  Modelled from the spec: the result record is declared outside the rule's file; the rule
  sets its anchor and its description.
\<close>

record lint_result =
  anchor :: segment
  description :: str

subsection \<open>The classifier\<close>

definition is_qualified_reference ::
  "segment \<Rightarrow> str list \<Rightarrow> str list \<Rightarrow> str list \<Rightarrow> str option \<Rightarrow> bool" where
  "is_qualified_reference reference table_alias_names col_alias_names using_cols dialect_name =
     (qualification reference \<noteq> Unqualified
      \<or> raw reference \<in> set col_alias_names
      \<or> raw reference \<in> set using_cols
      \<or> (dialect_name = Some (lit ''redshift'') \<and> raw reference \<in> set table_alias_names))"

subsection \<open>The text of a string as Python prints it\<close>

text \<open>
  The description formats the raw text with the conversion \<open>!r\<close>, the language's
  \<open>repr\<close> of a string: the text is enclosed in single quotes, or in double quotes when
  it holds a single quote and no double quote; the enclosing quote and the backslash are
  escaped with a backslash; tab, newline and carriage return are written as backslash and
  a letter; every other ASCII control character is written as backslash, \<open>x\<close> and two
  lowercase hexadecimal digits. A code point beyond ASCII is copied when the Unicode
  database calls it printable, and is otherwise written as backslash and \<open>x\<close>, \<open>u\<close> or
  \<open>U\<close> with two, four or eight hexadecimal digits, by its size. The table of the Unicode
  database is not part of the repository: it is the parameter \<open>isprintable\<close>, asked
  only about code points beyond ASCII.
\<close>

abbreviation single_quote :: nat where
  "single_quote \<equiv> of_char (CHR 0x27)"

abbreviation double_quote :: nat where
  "double_quote \<equiv> of_char (CHR 0x22)"

abbreviation backslash :: nat where
  "backslash \<equiv> of_char (CHR 0x5C)"

definition hexdigit :: "nat \<Rightarrow> nat" where
  "hexdigit n = (if n < 10 then of_char (CHR ''0'') + n else of_char (CHR ''a'') + (n - 10))"

definition escape_x :: "nat \<Rightarrow> str" where
  "escape_x c =
     [backslash, of_char (CHR ''x''), hexdigit (c div 16 mod 16), hexdigit (c mod 16)]"

definition escape_u :: "nat \<Rightarrow> str" where
  "escape_u c =
     [backslash, of_char (CHR ''u''), hexdigit (c div 4096 mod 16), hexdigit (c div 256 mod 16),
      hexdigit (c div 16 mod 16), hexdigit (c mod 16)]"

definition escape_U :: "nat \<Rightarrow> str" where
  "escape_U c =
     [backslash, of_char (CHR ''U''),
      hexdigit (c div 268435456 mod 16), hexdigit (c div 16777216 mod 16),
      hexdigit (c div 1048576 mod 16), hexdigit (c div 65536 mod 16),
      hexdigit (c div 4096 mod 16), hexdigit (c div 256 mod 16),
      hexdigit (c div 16 mod 16), hexdigit (c mod 16)]"

definition repr_quote :: "str \<Rightarrow> nat" where
  "repr_quote s =
     (if single_quote \<in> set s \<and> double_quote \<notin> set s then double_quote else single_quote)"

definition repr_char :: "(nat \<Rightarrow> bool) \<Rightarrow> nat \<Rightarrow> nat \<Rightarrow> str" where
  "repr_char isprintable quote c =
     (if c = quote \<or> c = backslash then [backslash, c]
      else if c = 9 then [backslash, of_char (CHR ''t'')]
      else if c = 10 then [backslash, of_char (CHR ''n'')]
      else if c = 13 then [backslash, of_char (CHR ''r'')]
      else if c < 32 \<or> c = 127 then escape_x c
      else if c < 127 then [c]
      else if \<not> isprintable c then
        (if c \<le> 255 then escape_x c else if c \<le> 65535 then escape_u c else escape_U c)
      else [c])"

definition repr :: "(nat \<Rightarrow> bool) \<Rightarrow> str \<Rightarrow> str" where
  "repr isprintable s =
     (let quote = repr_quote s
      in [quote] @ concat (map (repr_char isprintable quote) s) @ [quote])"

subsection \<open>The scanner\<close>

definition col_alias_names :: "segment \<Rightarrow> column_alias_info list \<Rightarrow> str list" where
  "col_alias_names r col_aliases =
     [alias_identifier_name c. c \<leftarrow> col_aliases, r \<notin> set (column_reference_segments c)]"

definition violation :: "(nat \<Rightarrow> bool) \<Rightarrow> segment \<Rightarrow> lint_result" where
  "violation isprintable r =
     \<lparr>anchor = r,
      description = lit ''Unqualified reference '' @ repr isprintable (raw r)
        @ lit '' found in '' @ lit ''select with more than one referenced table/view.''\<rparr>"

fun check_references ::
  "(nat \<Rightarrow> bool) \<Rightarrow> str list \<Rightarrow> column_alias_info list \<Rightarrow> str list \<Rightarrow> str option \<Rightarrow>
   segment list \<Rightarrow> lint_result list \<Rightarrow> lint_result list" where
  "check_references isprintable table_alias_names col_aliases using_cols dialect_name []
     violation_buff = violation_buff"
| "check_references isprintable table_alias_names col_aliases using_cols dialect_name (r # rs)
     violation_buff =
     (if \<not> is_qualified_reference r table_alias_names (col_alias_names r col_aliases)
            using_cols dialect_name
      then check_references isprintable table_alias_names col_aliases using_cols dialect_name rs
             (violation_buff @ [violation isprintable r])
      else check_references isprintable table_alias_names col_aliases using_cols dialect_name rs
             violation_buff)"

definition lint_references_and_aliases ::
  "(nat \<Rightarrow> bool) \<Rightarrow> alias_info list \<Rightarrow> str list \<Rightarrow> segment list \<Rightarrow>
   column_alias_info list \<Rightarrow> str list \<Rightarrow> str option \<Rightarrow> segment option \<Rightarrow>
   lint_result list option" where
  "lint_references_and_aliases isprintable table_aliases standalone_aliases references
     col_aliases using_cols dialect_name parent_select =
     (if length table_aliases \<le> 1 then None
      else
        let table_alias_names = map ref_str table_aliases;
            violation_buff =
              check_references isprintable table_alias_names col_aliases using_cols
                dialect_name references []
        in if violation_buff = [] then None else Some violation_buff)"

text \<open>The violations a result stands for: the result \<open>None\<close> reports none.\<close>

definition violations :: "lint_result list option \<Rightarrow> lint_result list" where
  "violations res = (case res of None \<Rightarrow> [] | Some vs \<Rightarrow> vs)"

text \<open>The references the scanner flags, in the order of the reference list.\<close>

definition flagged ::
  "alias_info list \<Rightarrow> segment list \<Rightarrow> column_alias_info list \<Rightarrow> str list \<Rightarrow>
   str option \<Rightarrow> segment list" where
  "flagged table_aliases references col_aliases using_cols dialect_name =
     filter (\<lambda>r. \<not> is_qualified_reference r (map ref_str table_aliases)
                     (col_alias_names r col_aliases) using_cols dialect_name) references"

text \<open>
  Text that \<open>repr\<close> only encloses in single quotes: every code point is printable (an
  ASCII character from the space to the tilde, or a code point beyond ASCII that the
  Unicode database calls printable) and is neither the single quote nor the backslash.
\<close>

definition plain_char :: "(nat \<Rightarrow> bool) \<Rightarrow> nat \<Rightarrow> bool" where
  "plain_char isprintable c =
     (c \<noteq> single_quote \<and> c \<noteq> backslash \<and> 32 \<le> c \<and> c \<noteq> 127
      \<and> (c < 127 \<or> isprintable c))"

definition plain_text :: "(nat \<Rightarrow> bool) \<Rightarrow> str \<Rightarrow> bool" where
  "plain_text isprintable s = list_all (plain_char isprintable) s"

subsection \<open>Example statements\<close>

text \<open>
  The table of the Unicode database on the code points of the examples: beyond ASCII and
  below 256 every code point from 161 on is printable but the soft hyphen (173); the
  examples hold one code point beyond, the line separator 8232, which is not printable.
\<close>

definition unicode_sample :: "nat \<Rightarrow> bool" where
  "unicode_sample c = (160 < c \<and> c \<noteq> 173 \<and> c < 256)"

text \<open>
  The statement of the rule's documentation, \<open>SELECT a, b FROM foo LEFT JOIN vee ...\<close>:
  two sources and references at different positions of the text.
\<close>

abbreviation two_tables :: "alias_info list" where
  "two_tables \<equiv> [\<lparr>ref_str = lit ''foo''\<rparr>, \<lparr>ref_str = lit ''vee''\<rparr>]"

abbreviation ref_a :: segment where
  "ref_a \<equiv> \<lparr>raw = lit ''a'', qualification = Unqualified, pos_marker = 7\<rparr>"

abbreviation ref_b :: segment where
  "ref_b \<equiv> \<lparr>raw = lit ''b'', qualification = Unqualified, pos_marker = 10\<rparr>"

abbreviation ref_id :: segment where
  "ref_id \<equiv> \<lparr>raw = lit ''id'', qualification = Unqualified, pos_marker = 13\<rparr>"

abbreviation ref_foo_a :: segment where
  "ref_foo_a \<equiv> \<lparr>raw = lit ''foo.a'', qualification = Qualified, pos_marker = 40\<rparr>"

abbreviation ref_a_later :: segment where
  "ref_a_later \<equiv> \<lparr>raw = lit ''a'', qualification = Unqualified, pos_marker = 60\<rparr>"

abbreviation ref_vee :: segment where
  "ref_vee \<equiv> \<lparr>raw = lit ''vee'', qualification = Unqualified, pos_marker = 20\<rparr>"

text \<open>The select element \<open>a + 1 AS a\<close>: the alias \<open>a\<close> defined from the reference at 7.\<close>

abbreviation alias_a :: column_alias_info where
  "alias_a \<equiv> \<lparr>alias_identifier_name = lit ''a'', column_reference_segments = [ref_a]\<rparr>"

text \<open>A reference written as a quoted identifier that holds an apostrophe.\<close>

abbreviation ref_quoted :: segment where
  "ref_quoted \<equiv>
     \<lparr>raw = lit [CHR 0x60, CHR ''i'', CHR ''t'', CHR 0x27, CHR ''s'', CHR 0x60],
      qualification = Unqualified, pos_marker = 7\<rparr>"

text \<open>
  A reference whose raw text holds the line separator between \<open>a\<close> and \<open>b\<close>, and one
  whose raw text is a quoted identifier of the letter e with acute accent (233).
\<close>

abbreviation ref_separator :: segment where
  "ref_separator \<equiv>
     \<lparr>raw = lit ''a'' @ [8232] @ lit ''b'', qualification = Unqualified, pos_marker = 30\<rparr>"

abbreviation ref_accent :: segment where
  "ref_accent \<equiv>
     \<lparr>raw = lit [CHR 0x22] @ [233] @ lit [CHR 0x22], qualification = Unqualified,
      pos_marker = 50\<rparr>"

section \<open>Properties\<close>

subsection \<open>The loop\<close>

lemma check_references_filter:
  "check_references ip tan cas ucs dn rs buff =
     buff @ map (violation ip)
       (filter (\<lambda>r. \<not> is_qualified_reference r tan (col_alias_names r cas) ucs dn) rs)"
  by (induction rs arbitrary: buff) simp_all

lemma scan_past_gate:
  "1 < length tas \<Longrightarrow>
   violations (lint_references_and_aliases ip tas sa refs cas ucs dn ps) =
     map (violation ip) (flagged tas refs cas ucs dn)"
  by (simp add: lint_references_and_aliases_def violations_def flagged_def
      check_references_filter Let_def)

lemma anchor_violation: "anchor (violation ip r) = r"
  by (simp add: violation_def)

lemma anchors_past_gate:
  "1 < length tas \<Longrightarrow>
   map anchor (violations (lint_references_and_aliases ip tas sa refs cas ucs dn ps)) =
     flagged tas refs cas ucs dn"
  by (simp add: scan_past_gate comp_def anchor_violation)

lemma flagged_iff:
  "r \<in> set (flagged tas refs cas ucs dn) \<longleftrightarrow>
     r \<in> set refs \<and>
     \<not> is_qualified_reference r (map ref_str tas) (col_alias_names r cas) ucs dn"
  by (simp add: flagged_def)

lemma col_alias_names_map_filter:
  "col_alias_names r cas =
     map alias_identifier_name (filter (\<lambda>c. r \<notin> set (column_reference_segments c)) cas)"
  by (induction cas) (simp_all add: col_alias_names_def)

lemma qualification_cases: "q \<noteq> Unqualified \<longleftrightarrow> q = Qualified"
  by (cases q) simp_all

subsection \<open>The classifier\<close>

text \<open>
  C1: the classifier returns true if and only if one of four conditions holds: the
  reference's status is qualified, its raw text is among the column alias names, its raw
  text is among the USING columns, or the dialect is Redshift and its raw text is among the
  table alias names. A scanned reference for which none of the four holds is reported.
\<close>

theorem is_qualified_reference_four_conditions:
  "(is_qualified_reference r tan can ucs dn \<longleftrightarrow>
      qualification r = Qualified
      \<or> raw r \<in> set can
      \<or> raw r \<in> set ucs
      \<or> (dn = Some (lit ''redshift'') \<and> raw r \<in> set tan))
   \<and> (1 < length tas \<and> r \<in> set refs
        \<and> \<not> (qualification r = Qualified
              \<or> raw r \<in> set (col_alias_names r cas)
              \<or> raw r \<in> set ucs
              \<or> (dn = Some (lit ''redshift'') \<and> raw r \<in> set (map ref_str tas)))
      \<longrightarrow> violation ip r
            \<in> set (violations (lint_references_and_aliases ip tas sa refs cas ucs dn ps)))"
proof (intro conjI impI)
  show "is_qualified_reference r tan can ucs dn \<longleftrightarrow>
      qualification r = Qualified \<or> raw r \<in> set can \<or> raw r \<in> set ucs
      \<or> (dn = Some (lit ''redshift'') \<and> raw r \<in> set tan)"
    by (simp add: is_qualified_reference_def qualification_cases)
next
  assume a: "1 < length tas \<and> r \<in> set refs
        \<and> \<not> (qualification r = Qualified
              \<or> raw r \<in> set (col_alias_names r cas)
              \<or> raw r \<in> set ucs
              \<or> (dn = Some (lit ''redshift'') \<and> raw r \<in> set (map ref_str tas)))"
  then have "\<not> is_qualified_reference r (map ref_str tas) (col_alias_names r cas) ucs dn"
    by (simp add: is_qualified_reference_def qualification_cases)
  with a have "r \<in> set (flagged tas refs cas ucs dn)"
    by (simp add: flagged_iff)
  with a show "violation ip r
      \<in> set (violations (lint_references_and_aliases ip tas sa refs cas ucs dn ps))"
    by (simp add: scan_past_gate)
qed

theorem is_qualified_reference_four_conditions_witness:
  "\<not> is_qualified_reference ref_b [lit ''foo'', lit ''vee''] [lit ''a''] [lit ''id''] None
   \<and> is_qualified_reference ref_a [lit ''foo'', lit ''vee''] [lit ''a''] [lit ''id''] None
   \<and> is_qualified_reference ref_id [lit ''foo'', lit ''vee''] [lit ''a''] [lit ''id''] None
   \<and> is_qualified_reference ref_foo_a [lit ''foo'', lit ''vee''] [lit ''a''] [lit ''id''] None
   \<and> is_qualified_reference ref_vee [lit ''foo'', lit ''vee''] [lit ''a''] [lit ''id'']
       (Some (lit ''redshift''))
   \<and> 1 < length two_tables \<and> ref_b \<in> set [ref_a, ref_b]
   \<and> violation unicode_sample ref_b \<in> set (violations
        (lint_references_and_aliases unicode_sample two_tables [] [ref_a, ref_b] [alias_a]
           [lit ''id''] None None))"
  using is_qualified_reference_four_conditions
          [where r = ref_b and tan = "[lit ''foo'', lit ''vee'']" and can = "[lit ''a'']"
             and ucs = "[lit ''id'']" and dn = None and tas = two_tables
             and refs = "[ref_a, ref_b]" and cas = "[alias_a]" and ip = unicode_sample
             and sa = "[]" and ps = None]
        is_qualified_reference_four_conditions
          [where r = ref_a and tan = "[lit ''foo'', lit ''vee'']" and can = "[lit ''a'']"
             and ucs = "[lit ''id'']" and dn = None]
        is_qualified_reference_four_conditions
          [where r = ref_id and tan = "[lit ''foo'', lit ''vee'']" and can = "[lit ''a'']"
             and ucs = "[lit ''id'']" and dn = None]
        is_qualified_reference_four_conditions
          [where r = ref_foo_a and tan = "[lit ''foo'', lit ''vee'']" and can = "[lit ''a'']"
             and ucs = "[lit ''id'']" and dn = None]
        is_qualified_reference_four_conditions
          [where r = ref_vee and tan = "[lit ''foo'', lit ''vee'']" and can = "[lit ''a'']"
             and ucs = "[lit ''id'']" and dn = "Some (lit ''redshift'')"]
  by (simp add: col_alias_names_def)

subsection \<open>The scanner\<close>

text \<open>
  C2: for each reference \<open>r\<close> scanned, the column alias names given to the classifier are
  the identifiers of exactly those column aliases whose own references do not contain
  \<open>r\<close> itself. An alias whose expression holds a different reference with the same raw text
  as \<open>r\<close> is not excluded: its name still qualifies \<open>r\<close>.
\<close>

theorem col_alias_names_excludes_by_identity:
  "col_alias_names r cas =
     map alias_identifier_name (filter (\<lambda>c. r \<notin> set (column_reference_segments c)) cas)
   \<and> (1 < length tas \<longrightarrow>
        map anchor (violations (lint_references_and_aliases ip tas sa refs cas ucs dn ps)) =
          filter (\<lambda>r. \<not> is_qualified_reference r (map ref_str tas)
             (map alias_identifier_name
                (filter (\<lambda>c. r \<notin> set (column_reference_segments c)) cas)) ucs dn) refs)
   \<and> (c \<in> set cas \<and> r \<notin> set (column_reference_segments c)
        \<and> r' \<in> set (column_reference_segments c) \<and> raw r' = raw r
      \<longrightarrow> alias_identifier_name c \<in> set (col_alias_names r cas)
          \<and> (alias_identifier_name c = raw r \<longrightarrow>
               r \<notin> set (map anchor
                  (violations (lint_references_and_aliases ip tas sa refs cas ucs dn ps)))))"
proof (intro conjI impI)
  show eq: "col_alias_names r cas =
     map alias_identifier_name (filter (\<lambda>c. r \<notin> set (column_reference_segments c)) cas)"
    by (rule col_alias_names_map_filter)
  show "map anchor (violations (lint_references_and_aliases ip tas sa refs cas ucs dn ps)) =
          filter (\<lambda>r. \<not> is_qualified_reference r (map ref_str tas)
             (map alias_identifier_name
                (filter (\<lambda>c. r \<notin> set (column_reference_segments c)) cas)) ucs dn) refs"
    if "1 < length tas"
    using that by (simp add: anchors_past_gate flagged_def col_alias_names_map_filter)
  assume a: "c \<in> set cas \<and> r \<notin> set (column_reference_segments c)
        \<and> r' \<in> set (column_reference_segments c) \<and> raw r' = raw r"
  then show in_names: "alias_identifier_name c \<in> set (col_alias_names r cas)"
    by (auto simp add: col_alias_names_map_filter)
  assume "alias_identifier_name c = raw r"
  with in_names have q: "is_qualified_reference r (map ref_str tas) (col_alias_names r cas) ucs dn"
    by (simp add: is_qualified_reference_def)
  show "r \<notin> set (map anchor
                  (violations (lint_references_and_aliases ip tas sa refs cas ucs dn ps)))"
  proof (cases "1 < length tas")
    case True
    with q show ?thesis by (simp add: anchors_past_gate flagged_iff)
  next
    case False
    then show ?thesis by (simp add: lint_references_and_aliases_def violations_def)
  qed
qed

theorem col_alias_names_excludes_by_identity_witness:
  "col_alias_names ref_a [alias_a] = []
   \<and> col_alias_names ref_a_later [alias_a] = [lit ''a'']
   \<and> map anchor (violations
        (lint_references_and_aliases unicode_sample two_tables [] [ref_a, ref_a_later]
           [alias_a] [] None None)) =
       [ref_a]
   \<and> 1 < length two_tables \<and> alias_a \<in> set [alias_a]
   \<and> ref_a \<in> set (column_reference_segments alias_a) \<and> raw ref_a = raw ref_a_later
   \<and> ref_a_later \<notin> set (column_reference_segments alias_a)
   \<and> alias_identifier_name alias_a = raw ref_a_later"
  using col_alias_names_excludes_by_identity
          [where r = ref_a and cas = "[alias_a]" and tas = two_tables and sa = "[]"
             and refs = "[ref_a, ref_a_later]" and ucs = "[]" and dn = None and ps = None
             and c = alias_a and r' = ref_a and ip = unicode_sample]
        col_alias_names_excludes_by_identity
          [where r = ref_a_later and cas = "[alias_a]" and tas = two_tables and sa = "[]"
             and refs = "[ref_a, ref_a_later]" and ucs = "[]" and dn = None and ps = None
             and c = alias_a and r' = ref_a and ip = unicode_sample]
  by (simp add: is_qualified_reference_def)

text \<open>
  C3: when there is at most one table source, the scanner returns the result that reports
  no violation, whatever the references, the column aliases, the USING columns and the
  dialect are.
\<close>

theorem single_source_gate:
  "length tas \<le> 1 \<Longrightarrow> lint_references_and_aliases ip tas sa refs cas ucs dn ps = None"
  by (simp add: lint_references_and_aliases_def)

theorem single_source_gate_witness:
  "length [\<lparr>ref_str = lit ''foo''\<rparr>] \<le> 1
   \<and> lint_references_and_aliases unicode_sample [\<lparr>ref_str = lit ''foo''\<rparr>] [] [ref_a, ref_b]
       [] [] None None = None
   \<and> lint_references_and_aliases unicode_sample two_tables [] [ref_a, ref_b] [] [] None None
       \<noteq> None"
  using single_source_gate
          [where tas = "[\<lparr>ref_str = lit ''foo''\<rparr>]" and sa = "[]" and refs = "[ref_a, ref_b]"
             and cas = "[]" and ucs = "[]" and dn = None and ps = None and ip = unicode_sample]
  by (simp add: lint_references_and_aliases_def is_qualified_reference_def col_alias_names_def)

lemma anchors_gate_closed:
  "length tas \<le> 1 \<Longrightarrow>
   violations (lint_references_and_aliases ip tas sa refs cas ucs dn ps) = []"
  by (simp add: lint_references_and_aliases_def violations_def)

lemma violation_in_iff:
  "1 < length tas \<Longrightarrow>
   violation ip r \<in> set (violations (lint_references_and_aliases ip tas sa refs cas ucs dn ps))
     \<longleftrightarrow> r \<in> set (flagged tas refs cas ucs dn)"
proof -
  assume "1 < length tas"
  then have "violations (lint_references_and_aliases ip tas sa refs cas ucs dn ps) =
      map (violation ip) (flagged tas refs cas ucs dn)"
    by (rule scan_past_gate)
  moreover have "inj (violation ip)"
    by (rule injI) (simp add: violation_def)
  ultimately show ?thesis
    by (simp add: inj_image_mem_iff)
qed

lemma anchor_in_iff:
  "1 < length tas \<Longrightarrow>
   r \<in> set (map anchor (violations (lint_references_and_aliases ip tas sa refs cas ucs dn ps)))
     \<longleftrightarrow> r \<in> set (flagged tas refs cas ucs dn)"
  by (simp only: anchors_past_gate)

text \<open>
  C4: with more than one table source, a scanned reference that is unqualified, whose raw
  text is the reference string of a table alias and is neither among its column alias names
  nor among the USING columns, gets no violation when the dialect name is \<open>redshift\<close>, and
  gets a violation under every other dialect name and under no dialect name.
\<close>

theorem redshift_table_name_exception:
  assumes "1 < length tas"
    and "r \<in> set refs"
    and "qualification r = Unqualified"
    and "raw r \<in> set (map ref_str tas)"
    and "raw r \<notin> set (col_alias_names r cas)"
    and "raw r \<notin> set ucs"
  shows "(dn = Some (lit ''redshift'') \<longrightarrow>
            r \<notin> set (map anchor
              (violations (lint_references_and_aliases ip tas sa refs cas ucs dn ps))))
       \<and> (dn \<noteq> Some (lit ''redshift'') \<longrightarrow>
            violation ip r \<in> set
              (violations (lint_references_and_aliases ip tas sa refs cas ucs dn ps)))"
proof (intro conjI impI)
  assume "dn = Some (lit ''redshift'')"
  with assms(4) have "is_qualified_reference r (map ref_str tas) (col_alias_names r cas) ucs dn"
    by (simp add: is_qualified_reference_def)
  then show "r \<notin> set (map anchor
              (violations (lint_references_and_aliases ip tas sa refs cas ucs dn ps)))"
    by (simp add: anchor_in_iff [OF assms(1)] flagged_iff del: set_map)
next
  assume "dn \<noteq> Some (lit ''redshift'')"
  with assms(3,5,6)
  have "\<not> is_qualified_reference r (map ref_str tas) (col_alias_names r cas) ucs dn"
    by (simp add: is_qualified_reference_def)
  with assms(2) show "violation ip r \<in> set
              (violations (lint_references_and_aliases ip tas sa refs cas ucs dn ps))"
    by (simp add: violation_in_iff [OF assms(1)] flagged_iff)
qed

theorem redshift_table_name_exception_witness:
  "1 < length two_tables \<and> ref_vee \<in> set [ref_vee, ref_b]
   \<and> qualification ref_vee = Unqualified \<and> raw ref_vee \<in> set (map ref_str two_tables)
   \<and> raw ref_vee \<notin> set (col_alias_names ref_vee [alias_a]) \<and> raw ref_vee \<notin> set [lit ''id'']
   \<and> lint_references_and_aliases unicode_sample two_tables [] [ref_vee, ref_b] [alias_a]
        [lit ''id''] (Some (lit ''redshift'')) None = Some [violation unicode_sample ref_b]
   \<and> lint_references_and_aliases unicode_sample two_tables [] [ref_vee, ref_b] [alias_a]
        [lit ''id''] (Some (lit ''ansi'')) None =
       Some [violation unicode_sample ref_vee, violation unicode_sample ref_b]
   \<and> lint_references_and_aliases unicode_sample two_tables [] [ref_vee, ref_b] [alias_a]
        [lit ''id''] None None =
       Some [violation unicode_sample ref_vee, violation unicode_sample ref_b]"
  using redshift_table_name_exception
          [where tas = two_tables and r = ref_vee and refs = "[ref_vee, ref_b]"
             and cas = "[alias_a]" and ucs = "[lit ''id'']" and dn = "Some (lit ''redshift'')"
             and sa = "[]" and ps = None and ip = unicode_sample]
        redshift_table_name_exception
          [where tas = two_tables and r = ref_vee and refs = "[ref_vee, ref_b]"
             and cas = "[alias_a]" and ucs = "[lit ''id'']" and dn = "Some (lit ''ansi'')"
             and sa = "[]" and ps = None and ip = unicode_sample]
        redshift_table_name_exception
          [where tas = two_tables and r = ref_vee and refs = "[ref_vee, ref_b]"
             and cas = "[alias_a]" and ucs = "[lit ''id'']" and dn = None
             and sa = "[]" and ps = None and ip = unicode_sample]
  by (simp add: lint_references_and_aliases_def is_qualified_reference_def col_alias_names_def)

text \<open>
  C5: in a statement with two table sources and a USING clause that declares the column
  \<open>idc\<close>, an unqualified reference whose raw text is \<open>idc\<close> gets no violation; an
  unqualified reference with another raw text that no exception covers (not one of its
  column alias names, not a table alias name under Redshift) gets a violation.
\<close>

theorem using_column_exception:
  assumes "length tas = 2"
    and "r \<in> set refs"
    and "qualification r = Unqualified"
  shows "(raw r = idc \<longrightarrow>
            r \<notin> set (map anchor
              (violations (lint_references_and_aliases ip tas sa refs cas [idc] dn ps))))
       \<and> (raw r \<noteq> idc \<and> raw r \<notin> set (col_alias_names r cas)
            \<and> \<not> (dn = Some (lit ''redshift'') \<and> raw r \<in> set (map ref_str tas)) \<longrightarrow>
            violation ip r \<in> set
              (violations (lint_references_and_aliases ip tas sa refs cas [idc] dn ps)))"
proof -
  from assms(1) have gate: "1 < length tas" by simp
  from assms(2) show ?thesis
    by (simp add: anchor_in_iff [OF gate] violation_in_iff [OF gate] flagged_iff
        is_qualified_reference_def assms(3) del: set_map)
qed

theorem using_column_exception_witness:
  "length two_tables = 2 \<and> ref_id \<in> set [ref_id, ref_b] \<and> ref_b \<in> set [ref_id, ref_b]
   \<and> qualification ref_id = Unqualified \<and> qualification ref_b = Unqualified
   \<and> raw ref_id = lit ''id'' \<and> raw ref_b \<noteq> lit ''id''
   \<and> lint_references_and_aliases unicode_sample two_tables [] [ref_id, ref_b] []
       [lit ''id''] None None = Some [violation unicode_sample ref_b]"
  using using_column_exception
          [where tas = two_tables and r = ref_id and refs = "[ref_id, ref_b]"
             and idc = "lit ''id''" and sa = "[]" and cas = "[]" and dn = None and ps = None
             and ip = unicode_sample]
        using_column_exception
          [where tas = two_tables and r = ref_b and refs = "[ref_id, ref_b]"
             and idc = "lit ''id''" and sa = "[]" and cas = "[]" and dn = None and ps = None
             and ip = unicode_sample]
  by (simp add: lint_references_and_aliases_def is_qualified_reference_def col_alias_names_def)

text \<open>
  C7: the violations list the flagged references in the order in which the reference list
  holds them, one violation for each failing reference of the list.
\<close>

theorem violations_keep_reference_order:
  "violations (lint_references_and_aliases ip tas sa refs cas ucs dn ps) =
     map (violation ip)
       (map anchor (violations (lint_references_and_aliases ip tas sa refs cas ucs dn ps)))
   \<and> map anchor (violations (lint_references_and_aliases ip tas sa refs cas ucs dn ps)) =
       (if 1 < length tas
        then filter (\<lambda>r. \<not> is_qualified_reference r (map ref_str tas)
                            (col_alias_names r cas) ucs dn) refs
        else [])
   \<and> subseq (map anchor (violations (lint_references_and_aliases ip tas sa refs cas ucs dn ps)))
       refs"
proof (cases "1 < length tas")
  case True
  then show ?thesis
    by (simp add: scan_past_gate comp_def anchor_violation flagged_def)
next
  case False
  then show ?thesis
    by (simp add: anchors_gate_closed)
qed

theorem violations_keep_reference_order_witness:
  "violations (lint_references_and_aliases unicode_sample two_tables []
      [ref_b, ref_foo_a, ref_a, ref_id, ref_b] [] [lit ''id''] None None) =
     [violation unicode_sample ref_b, violation unicode_sample ref_a,
      violation unicode_sample ref_b]
   \<and> subseq [ref_b, ref_a, ref_b] [ref_b, ref_foo_a, ref_a, ref_id, ref_b]"
  using violations_keep_reference_order
          [where tas = two_tables and sa = "[]"
             and refs = "[ref_b, ref_foo_a, ref_a, ref_id, ref_b]" and cas = "[]"
             and ucs = "[lit ''id'']" and dn = None and ps = None and ip = unicode_sample]
  by (simp add: lint_references_and_aliases_def violations_def is_qualified_reference_def
      col_alias_names_def)

text \<open>
  C9: the result does not depend on the standalone aliases nor on the parent select: two
  calls that differ only in these two arguments return the same result.
\<close>

theorem standalone_aliases_and_parent_select_unused:
  "lint_references_and_aliases ip tas sa refs cas ucs dn ps =
     lint_references_and_aliases ip tas sa' refs cas ucs dn ps'"
  by (simp add: lint_references_and_aliases_def)

theorem standalone_aliases_and_parent_select_unused_witness:
  "lint_references_and_aliases unicode_sample two_tables [] [ref_a, ref_foo_a] [] [] None None =
     lint_references_and_aliases unicode_sample two_tables [lit ''lat''] [ref_a, ref_foo_a]
       [] [] None (Some ref_b)
   \<and> lint_references_and_aliases unicode_sample two_tables [lit ''lat''] [ref_a, ref_foo_a]
       [] [] None (Some ref_b) = Some [violation unicode_sample ref_a]"
  using standalone_aliases_and_parent_select_unused
          [where tas = two_tables and sa = "[]" and refs = "[ref_a, ref_foo_a]" and cas = "[]"
             and ucs = "[]" and dn = None and ps = None and sa' = "[lit ''lat'']"
             and ps' = "Some ref_b" and ip = unicode_sample]
  by (simp add: lint_references_and_aliases_def is_qualified_reference_def col_alias_names_def)

lemma filter_stronger_subseq:
  "(\<And>x. x \<in> set xs \<Longrightarrow> P x \<Longrightarrow> Q x) \<Longrightarrow> subseq (filter P xs) (filter Q xs)"
proof -
  assume pq: "\<And>x. x \<in> set xs \<Longrightarrow> P x \<Longrightarrow> Q x"
  then have "filter P xs = filter P (filter Q xs)"
    by (auto intro: filter_cong)
  then show ?thesis
    by (metis subseq_filter_left)
qed

lemma col_alias_names_mono:
  "set cas \<subseteq> set cas' \<Longrightarrow> set (col_alias_names r cas) \<subseteq> set (col_alias_names r cas')"
  by (auto simp add: col_alias_names_map_filter)

lemma is_qualified_reference_mono:
  "set can \<subseteq> set can' \<Longrightarrow> set ucs \<subseteq> set ucs' \<Longrightarrow>
   is_qualified_reference r tan can ucs dn \<Longrightarrow> is_qualified_reference r tan can' ucs' dn"
  by (auto simp add: is_qualified_reference_def)

lemma flagged_antimono:
  assumes "set ucs \<subseteq> set ucs'" and "set cas \<subseteq> set cas'"
  shows "subseq (flagged tas refs cas' ucs' dn) (flagged tas refs cas ucs dn)"
  unfolding flagged_def
proof (rule filter_stronger_subseq)
  fix r
  assume "\<not> is_qualified_reference r (map ref_str tas) (col_alias_names r cas') ucs' dn"
  then show "\<not> is_qualified_reference r (map ref_str tas) (col_alias_names r cas) ucs dn"
    using is_qualified_reference_mono [OF col_alias_names_mono [OF assms(2)] assms(1)]
    by blast
qed

text \<open>
  C10: enlarging the exception inputs never creates a violation. When every USING column
  and every column alias of a statement is kept and more are added, the violations of the
  enlarged statement are a subsequence (same order) of the violations before.
\<close>

theorem more_exceptions_fewer_violations:
  assumes "set ucs \<subseteq> set ucs'" and "set cas \<subseteq> set cas'"
  shows "subseq (violations (lint_references_and_aliases ip tas sa refs cas' ucs' dn ps))
           (violations (lint_references_and_aliases ip tas sa refs cas ucs dn ps))"
proof (cases "1 < length tas")
  case True
  then show ?thesis
    by (simp only: scan_past_gate subseq_map flagged_antimono [OF assms])
next
  case False
  then show ?thesis
    by (simp add: anchors_gate_closed)
qed

theorem more_exceptions_fewer_violations_witness:
  "set [lit ''id''] \<subseteq> set [lit ''b'', lit ''id''] \<and> set [] \<subseteq> set [alias_a]
   \<and> violations (lint_references_and_aliases unicode_sample two_tables []
        [ref_a, ref_b, ref_a_later] [] [lit ''id''] None None) =
       [violation unicode_sample ref_a, violation unicode_sample ref_b,
        violation unicode_sample ref_a_later]
   \<and> violations (lint_references_and_aliases unicode_sample two_tables []
        [ref_a, ref_b, ref_a_later] [alias_a] [lit ''b'', lit ''id''] None None) =
       [violation unicode_sample ref_a]
   \<and> subseq [violation unicode_sample ref_a]
       [violation unicode_sample ref_a, violation unicode_sample ref_b,
        violation unicode_sample ref_a_later]"
  using more_exceptions_fewer_violations
          [where ucs = "[lit ''id'']" and ucs' = "[lit ''b'', lit ''id'']" and cas = "[]"
             and cas' = "[alias_a]" and tas = two_tables and sa = "[]"
             and refs = "[ref_a, ref_b, ref_a_later]" and dn = None and ps = None
             and ip = unicode_sample]
  by (simp add: lint_references_and_aliases_def violations_def is_qualified_reference_def
      col_alias_names_def)

subsection \<open>The description\<close>

lemma repr_char_nonempty: "repr_char ip q c \<noteq> []"
  by (simp add: repr_char_def escape_x_def escape_u_def escape_U_def)

lemma repr_char_single_iff: "repr_char ip single_quote c = [c] \<longleftrightarrow> plain_char ip c"
  by (auto simp add: repr_char_def plain_char_def escape_x_def escape_u_def escape_U_def)

lemma length_concat_map_ge:
  "(\<And>x. f x \<noteq> []) \<Longrightarrow> length xs \<le> length (concat (map f xs))"
proof (induction xs)
  case Nil
  then show ?case by simp
next
  case (Cons x xs)
  have "1 \<le> length (f x)"
    using Cons.prems [of x] by (cases "f x") simp_all
  with Cons show ?case by simp
qed

lemma concat_map_same_iff:
  assumes ne: "\<And>x. f x \<noteq> []"
  shows "concat (map f xs) = xs \<longleftrightarrow> (\<forall>x \<in> set xs. f x = [x])"
proof (induction xs)
  case Nil
  show ?case by simp
next
  case (Cons x xs)
  show ?case
  proof
    assume eq: "concat (map f (x # xs)) = x # xs"
    then have "length (f x) + length (concat (map f xs)) = Suc (length xs)"
      by (metis concat.simps(2) length_Cons length_append list.simps(9))
    moreover have "length xs \<le> length (concat (map f xs))"
      by (rule length_concat_map_ge) (rule ne)
    moreover have "0 < length (f x)"
      using ne [of x] by simp
    ultimately have "length (f x) = Suc 0"
      by arith
    then obtain y where y: "f x = [y]"
      by (auto simp add: length_Suc_conv)
    with eq have "y = x" and "concat (map f xs) = xs" by simp_all
    with y Cons.IH show "\<forall>z \<in> set (x # xs). f z = [z]" by simp
  next
    assume "\<forall>z \<in> set (x # xs). f z = [z]"
    with Cons.IH show "concat (map f (x # xs)) = x # xs" by simp
  qed
qed

lemma repr_char_all_single:
  "concat (map (repr_char ip q) s) = s \<longleftrightarrow> (\<forall>c \<in> set s. repr_char ip q c = [c])"
  by (rule concat_map_same_iff) (rule repr_char_nonempty)

lemma repr_single_quoted_iff:
  "repr ip s = [single_quote] @ s @ [single_quote] \<longleftrightarrow> plain_text ip s"
proof
  assume eq: "repr ip s = [single_quote] @ s @ [single_quote]"
  then have q: "repr_quote s = single_quote"
    by (simp add: repr_def Let_def)
  with eq have "concat (map (repr_char ip single_quote) s) = s"
    by (simp add: repr_def Let_def)
  then have "\<forall>c \<in> set s. repr_char ip single_quote c = [c]"
    by (simp only: repr_char_all_single)
  then show "plain_text ip s"
    by (simp only: plain_text_def list_all_iff repr_char_single_iff)
next
  assume p: "plain_text ip s"
  then have all: "\<forall>c \<in> set s. repr_char ip single_quote c = [c]"
    by (simp only: plain_text_def list_all_iff repr_char_single_iff)
  from p have "single_quote \<notin> set s"
    by (auto simp add: plain_text_def list_all_iff plain_char_def)
  then have q: "repr_quote s = single_quote"
    by (simp add: repr_quote_def)
  from all have "concat (map (repr_char ip single_quote) s) = s"
    by (simp only: repr_char_all_single)
  with q show "repr ip s = [single_quote] @ s @ [single_quote]"
    by (simp add: repr_def Let_def)
qed

lemma violation_record:
  "violation ip =
     (\<lambda>r. \<lparr>anchor = r,
            description = lit ''Unqualified reference '' @ repr ip (raw r)
              @ lit '' found in select with more than one referenced table/view.''\<rparr>)"
  by (rule ext) (simp add: violation_def)

lemma between_cancel:
  "pre @ x @ suf = pre @ [q] @ s @ [q] @ suf \<longleftrightarrow> x = [q] @ s @ [q]"
proof -
  have "pre @ [q] @ s @ [q] @ suf = pre @ ([q] @ s @ [q]) @ suf"
    by simp
  then show ?thesis
    by (simp only: same_append_eq append_same_eq)
qed

text \<open>
  C6, as the claim states it, fails: the description holds the raw text as the language's
  \<open>repr\<close> prints it, and a raw text with an apostrophe and no double quote is enclosed in
  double quotes.
\<close>

theorem description_single_quotes_counterexample:
  "lint_references_and_aliases unicode_sample two_tables [] [ref_quoted] [] [] None None =
     Some [\<lparr>anchor = ref_quoted,
            description = lit ''Unqualified reference '' @ [double_quote] @ raw ref_quoted
              @ [double_quote]
              @ lit '' found in select with more than one referenced table/view.''\<rparr>]
   \<and> lit ''Unqualified reference '' @ [double_quote] @ raw ref_quoted @ [double_quote]
        @ lit '' found in select with more than one referenced table/view.''
     \<noteq> lit ''Unqualified reference '' @ [single_quote] @ raw ref_quoted @ [single_quote]
        @ lit '' found in select with more than one referenced table/view.''"
  by (simp add: lint_references_and_aliases_def is_qualified_reference_def col_alias_names_def
      violation_def repr_def repr_quote_def repr_char_def Let_def)

text \<open>
  C6, amended: the violations are exactly one record for each failing reference \<open>r\<close> of
  the reference list, in the order of the list, anchored at \<open>r\<close> and with the description
  \<open>Unqualified reference\<close>, the \<open>repr\<close> of the raw text of \<open>r\<close>, and
  \<open>found in select with more than one referenced table/view.\<close>; this description is the
  raw text enclosed in single quotes exactly when the raw text holds no single quote, no
  backslash and no code point that is not printable. This holds for every raw text and
  every table of the Unicode database.
\<close>

theorem violation_anchor_and_description:
  "violations (lint_references_and_aliases ip tas sa refs cas ucs dn ps) =
     (if 1 < length tas
      then map (\<lambda>r. \<lparr>anchor = r,
                      description = lit ''Unqualified reference '' @ repr ip (raw r)
                        @ lit '' found in select with more than one referenced table/view.''\<rparr>)
             (filter (\<lambda>r. \<not> is_qualified_reference r (map ref_str tas)
                             (col_alias_names r cas) ucs dn) refs)
      else [])
   \<and> (lit ''Unqualified reference '' @ repr ip s
        @ lit '' found in select with more than one referenced table/view.'' =
      lit ''Unqualified reference '' @ [single_quote] @ s @ [single_quote]
        @ lit '' found in select with more than one referenced table/view.''
      \<longleftrightarrow> (\<forall>c \<in> set s. c \<noteq> single_quote \<and> c \<noteq> backslash \<and> 32 \<le> c \<and> c \<noteq> 127
                          \<and> (c < 127 \<or> ip c)))"
proof (intro conjI)
  show "violations (lint_references_and_aliases ip tas sa refs cas ucs dn ps) =
     (if 1 < length tas
      then map (\<lambda>r. \<lparr>anchor = r,
                      description = lit ''Unqualified reference '' @ repr ip (raw r)
                        @ lit '' found in select with more than one referenced table/view.''\<rparr>)
             (filter (\<lambda>r. \<not> is_qualified_reference r (map ref_str tas)
                             (col_alias_names r cas) ucs dn) refs)
      else [])"
  proof (cases "1 < length tas")
    case True
    then have "violations (lint_references_and_aliases ip tas sa refs cas ucs dn ps) =
        map (violation ip) (flagged tas refs cas ucs dn)"
      by (rule scan_past_gate)
    with True show ?thesis
      by (simp only: violation_record flagged_def if_True)
  next
    case False
    then show ?thesis
      by (simp add: anchors_gate_closed)
  qed
next
  have "plain_text ip s \<longleftrightarrow>
      (\<forall>c \<in> set s. c \<noteq> single_quote \<and> c \<noteq> backslash \<and> 32 \<le> c \<and> c \<noteq> 127
                    \<and> (c < 127 \<or> ip c))"
    by (simp add: plain_text_def list_all_iff plain_char_def)
  then show "lit ''Unqualified reference '' @ repr ip s
        @ lit '' found in select with more than one referenced table/view.'' =
      lit ''Unqualified reference '' @ [single_quote] @ s @ [single_quote]
        @ lit '' found in select with more than one referenced table/view.''
      \<longleftrightarrow> (\<forall>c \<in> set s. c \<noteq> single_quote \<and> c \<noteq> backslash \<and> 32 \<le> c \<and> c \<noteq> 127
                          \<and> (c < 127 \<or> ip c))"
    by (simp only: between_cancel repr_single_quoted_iff)
qed

theorem violation_anchor_and_description_witness:
  "violations (lint_references_and_aliases unicode_sample two_tables []
      [ref_foo_a, ref_a, ref_separator, ref_accent] [] [] None None) =
     [\<lparr>anchor = ref_a,
       description = lit ''Unqualified reference '' @ [single_quote] @ lit ''a''
         @ [single_quote]
         @ lit '' found in select with more than one referenced table/view.''\<rparr>,
      \<lparr>anchor = ref_separator,
       description = lit ''Unqualified reference '' @ [single_quote] @ lit ''a''
         @ [backslash] @ lit ''u2028b'' @ [single_quote]
         @ lit '' found in select with more than one referenced table/view.''\<rparr>,
      \<lparr>anchor = ref_accent,
       description = lit ''Unqualified reference '' @ [single_quote] @ raw ref_accent
         @ [single_quote]
         @ lit '' found in select with more than one referenced table/view.''\<rparr>]
   \<and> 1 < length two_tables
   \<and> plain_text unicode_sample (raw ref_a)
   \<and> plain_text unicode_sample (raw ref_accent)
   \<and> \<not> plain_text unicode_sample (raw ref_separator)"
  using violation_anchor_and_description
          [where ip = unicode_sample and tas = two_tables and sa = "[]"
             and refs = "[ref_foo_a, ref_a, ref_separator, ref_accent]" and cas = "[]"
             and ucs = "[]" and dn = None and ps = None and s = "raw ref_accent"]
  by (simp add: is_qualified_reference_def col_alias_names_def repr_def repr_quote_def
      repr_char_def Let_def unicode_sample_def escape_u_def hexdigit_def plain_text_def
      plain_char_def)

subsection \<open>The result\<close>

text \<open>
  C8, as the claim states it, fails: with an empty list of column aliases the scanner still
  returns violations when a reference is flagged.
\<close>

theorem empty_col_aliases_counterexample:
  "1 < length two_tables
   \<and> lint_references_and_aliases unicode_sample two_tables [] [ref_a] [] [] None None =
       Some [violation unicode_sample ref_a]
   \<and> lint_references_and_aliases unicode_sample two_tables [] [ref_a] [] [] None None \<noteq> None"
  by (simp add: lint_references_and_aliases_def is_qualified_reference_def col_alias_names_def)

text \<open>
  C8, amended: past the single-source gate the scanner returns the accumulated violations
  exactly when they are not empty and returns \<open>None\<close>, never an empty sequence, when no
  reference was flagged. An empty reference list yields \<open>None\<close>. An empty list of column
  aliases is accepted: the result is then \<open>None\<close> exactly when every reference is
  qualified without a column alias name.
\<close>

theorem result_none_iff_nothing_flagged:
  assumes "1 < length tas"
  shows "check_references ip (map ref_str tas) cas ucs dn refs [] =
           map (violation ip) (flagged tas refs cas ucs dn)
     \<and> (flagged tas refs cas ucs dn \<noteq> [] \<longrightarrow>
          lint_references_and_aliases ip tas sa refs cas ucs dn ps =
            Some (map (violation ip) (flagged tas refs cas ucs dn)))
     \<and> (flagged tas refs cas ucs dn = [] \<longrightarrow>
          lint_references_and_aliases ip tas sa refs cas ucs dn ps = None)
     \<and> lint_references_and_aliases ip tas sa refs cas ucs dn ps \<noteq> Some []
     \<and> lint_references_and_aliases ip tas sa [] cas ucs dn ps = None
     \<and> (lint_references_and_aliases ip tas sa refs [] ucs dn ps = None \<longleftrightarrow>
          (\<forall>r \<in> set refs. is_qualified_reference r (map ref_str tas) [] ucs dn))"
proof -
  have names: "col_alias_names r [] = []" for r
    by (simp add: col_alias_names_def)
  from assms show ?thesis
    by (simp add: lint_references_and_aliases_def check_references_filter flagged_def
        Let_def names filter_empty_conv)
qed

theorem result_none_iff_nothing_flagged_witness:
  "1 < length two_tables
   \<and> lint_references_and_aliases unicode_sample two_tables [] [ref_foo_a, ref_a] [alias_a] []
       None None = Some [violation unicode_sample ref_a]
   \<and> lint_references_and_aliases unicode_sample two_tables [] [ref_foo_a, ref_id] [alias_a]
       [lit ''id''] None None = None
   \<and> lint_references_and_aliases unicode_sample two_tables [] [] [alias_a] [] None None = None
   \<and> lint_references_and_aliases unicode_sample two_tables [] [ref_foo_a, ref_id] []
       [lit ''id''] None None = None"
  using result_none_iff_nothing_flagged
          [where tas = two_tables and cas = "[alias_a]" and ucs = "[]" and dn = None
             and refs = "[ref_foo_a, ref_a]" and sa = "[]" and ps = None
             and ip = unicode_sample]
        result_none_iff_nothing_flagged
          [where tas = two_tables and cas = "[alias_a]" and ucs = "[lit ''id'']" and dn = None
             and refs = "[ref_foo_a, ref_id]" and sa = "[]" and ps = None
             and ip = unicode_sample]
        result_none_iff_nothing_flagged
          [where tas = two_tables and cas = "[]" and ucs = "[lit ''id'']" and dn = None
             and refs = "[ref_foo_a, ref_id]" and sa = "[]" and ps = None
             and ip = unicode_sample]
  by (simp add: flagged_def is_qualified_reference_def col_alias_names_def)

end
